theory Spec2Isabelle
  imports Complex_Main
begin

section \<open>Numbers\<close>

text \<open>
  A JavaScript number is an IEEE 754 double. It is modelled as the real number it denotes,
  and every \<open>+\<close> and \<open>-\<close> of the code rounds its exact result to the nearest double, ties
  to even, with 53 significant bits. \<open>Math.max\<close>, \<open>Math.min\<close> and the comparisons are
  exact. The exponent is not bounded here: overflow to Infinity and the subnormal range
  are left out, and NaN is not a value of the model.
\<close>

text \<open>Rounding to the nearest integer, ties to even.\<close>

definition rne :: "real \<Rightarrow> int" where
  "rne q =
     (let f = \<lfloor>q\<rfloor>; r = q - of_int f
      in if r < 1 / 2 then f else if 1 / 2 < r then f + 1 else if even f then f else f + 1)"

text \<open>The binary exponent of a number that is not zero.\<close>

definition binade :: "real \<Rightarrow> int" where
  "binade x = \<lfloor>log 2 \<bar>x\<bar>\<rfloor>"

text \<open>The nearest double: the spacing of the doubles around \<open>x\<close> is \<open>2\<close> to the \<open>binade x - 52\<close>.\<close>

definition round_double :: "real \<Rightarrow> real" where
  "round_double x =
     (if x = 0 then 0
      else (let u = 2 powr (of_int (binade x) - 52) in of_int (rne (x / u)) * u))"

definition fadd :: "real \<Rightarrow> real \<Rightarrow> real" where
  "fadd x y = round_double (x + y)"

definition fsub :: "real \<Rightarrow> real \<Rightarrow> real" where
  "fsub x y = round_double (x - y)"

text \<open>The reals that are doubles.\<close>

definition isDouble :: "real \<Rightarrow> bool" where
  "isDouble x = (round_double x = x)"



section \<open>Data model of the editor (src/App.tsx)\<close>

text \<open>
  The editor keeps its clips in \<open>editorState.clips\<close>, an array in insertion order, next to
  the playhead and the selection.
\<close>

text \<open>
  Modelled from the spec: the declarations of \<open>EditorClip\<close> and \<open>EditorState\<close> in
  \<open>./types\<close> are not part of the sources at hand. The kind of a clip is the closed union
  \<open>video | image | text\<close> of the spec's data model; the fields of both records are those
  of the object literals in src/App.tsx. The fields \<open>id\<close> and \<open>type\<close> of a clip are
  named \<open>clip_id\<close> and \<open>clip_type\<close> here.
\<close>

datatype ClipType = Video | Image | Text

record EditorClip =
  clip_id :: string
  clip_type :: ClipType
  src :: string
  name :: string
  duration :: real
  startTime :: real
  offset :: real

text \<open>
  A caption span as returned by \<open>generateCaptions\<close>: the fields \<open>startTime\<close>,
  \<open>endTime\<close> and \<open>text\<close> read by \<open>handleAutoCaptions\<close>.
\<close>

record Caption =
  cap_startTime :: real
  cap_endTime :: real
  cap_text :: string

text \<open>
  The editor state of \<open>useState<EditorState>\<close>; \<open>selectedClipId\<close> is \<open>string | null\<close>.
  The state's own \<open>duration\<close> field is named \<open>st_duration\<close>.
\<close>

record EditorState =
  currentTime :: real
  st_duration :: real
  isPlaying :: bool
  selectedClipId :: "string option"
  clips :: "EditorClip list"
  zoomLevel :: real

text \<open>The initial editor state (lines 40-47).\<close>

definition initialState :: EditorState where
  "initialState =
     \<lparr> currentTime = 0, st_duration = 0, isPlaying = False, selectedClipId = None,
       clips = [], zoomLevel = 1 \<rparr>"

section \<open>Identifiers\<close>

text \<open>
  \<open>Date.now().toString()\<close> and the template literal of the caption ids print a number in
  decimal.
\<close>

definition digit :: "nat \<Rightarrow> char" where
  "digit d = ''0123456789'' ! d"

fun toString :: "nat \<Rightarrow> string" where
  "toString n = (if n < 10 then [digit n] else toString (n div 10) @ [digit (n mod 10)])"

declare toString.simps [simp del]

section \<open>Caption alignment (handleAutoCaptions, lines 147-220)\<close>

text \<open>The callback of the first \<open>filter\<close> (lines 170-176).\<close>

definition inTrimmedRange :: "EditorClip \<Rightarrow> Caption \<Rightarrow> bool" where
  "inTrimmedRange selectedClip cap =
     (let clipEndSource = fadd (offset selectedClip) (duration selectedClip)
      in cap_startTime cap < clipEndSource \<and> cap_endTime cap > offset selectedClip)"

text \<open>
  The callback of \<open>map\<close> (lines 177-201); \<open>null\<close> is \<open>None\<close>. The argument \<open>clock\<close>
  gives the value of \<open>Date.now()\<close> read by the call for each index.
\<close>

definition captionToClip :: "(nat \<Rightarrow> nat) \<Rightarrow> EditorClip \<Rightarrow> Caption \<Rightarrow> nat \<Rightarrow> EditorClip option" where
  "captionToClip clock selectedClip cap index =
     (let relativeStart = fsub (cap_startTime cap) (offset selectedClip);
          relativeEnd = fsub (cap_endTime cap) (offset selectedClip);
          startInClip = max 0 relativeStart;
          endInClip = min (duration selectedClip) relativeEnd;
          dur = fsub endInClip startInClip
      in if dur \<le> 0 then None
         else Some \<lparr> clip_id = ''caption-'' @ toString (clock index) @ ''-'' @ toString index,
                     clip_type = Text,
                     src = '''',
                     name = cap_text cap,
                     duration = dur,
                     startTime = fadd (startTime selectedClip) startInClip,
                     offset = 0 \<rparr>)"

text \<open>\<open>.filter(Boolean)\<close> on an array of objects and \<open>null\<close>: the objects stay.\<close>

fun filterBoolean :: "'a option list \<Rightarrow> 'a list" where
  "filterBoolean [] = []"
| "filterBoolean (None # xs) = filterBoolean xs"
| "filterBoolean (Some x # xs) = x # filterBoolean xs"

text \<open>
  The array \<open>newClips\<close> (lines 169-202): the index passed to the \<open>map\<close> callback counts
  the captions that passed the first filter.
\<close>

definition newClips :: "(nat \<Rightarrow> nat) \<Rightarrow> EditorClip \<Rightarrow> Caption list \<Rightarrow> EditorClip list" where
  "newClips clock selectedClip captions =
     filterBoolean
       (map (\<lambda>(index, cap). captionToClip clock selectedClip cap index)
            (enumerate 0 (filter (inTrimmedRange selectedClip) captions)))"

text \<open>
  The handler itself. The result of the awaited \<open>fetch\<close> and \<open>generateCaptions\<close> is the
  argument \<open>generated\<close>: \<open>Inl ()\<close> when one of them throws, \<open>Inr captions\<close> otherwise. The
  handler returns the message it passes to \<open>alert\<close>, if any, and the editor state after
  it. The updater of \<open>setEditorState\<close> is applied to the state the handler started from.
\<close>

definition handleAutoCaptions ::
  "(nat \<Rightarrow> nat) \<Rightarrow> unit + Caption list \<Rightarrow> EditorState \<Rightarrow> string option \<times> EditorState" where
  "handleAutoCaptions clock generated st =
     (case List.find (\<lambda>c. Some (clip_id c) = selectedClipId st) (clips st) of
        None \<Rightarrow>
          (Some ''Please select a video clip on the timeline to generate captions for.'', st)
      | Some selectedClip \<Rightarrow>
          if clip_type selectedClip \<noteq> Video then
            (Some ''Please select a video clip on the timeline to generate captions for.'', st)
          else
            (case generated of
               Inl _ \<Rightarrow> (Some ''Failed to generate captions. Please try again.'', st)
             | Inr captions \<Rightarrow>
                 if length captions = 0 then
                   (Some ''No speech detected or generation failed.'', st)
                 else
                   (let added = newClips clock selectedClip captions
                    in if length added = 0 then
                         (Some ''Captions generated but none fall within the trimmed video segment.'', st)
                       else (None, st\<lparr>clips := clips st @ added\<rparr>))))"

section \<open>Mutations of the clip collection\<close>

text \<open>
  \<open>handleFileUpload\<close> (lines 89-113), for a chosen file with its MIME type, object URL
  and name; \<open>now\<close> is the value of \<open>Date.now()\<close>. The list \<open>uploadedFiles\<close> is a state
  of its own and is left out.
\<close>

definition handleFileUpload :: "nat \<Rightarrow> string \<Rightarrow> string \<Rightarrow> string \<Rightarrow> EditorState \<Rightarrow> EditorState" where
  "handleFileUpload now fileType url fileName st =
     (if length (clips st) = 0 then
        (let newClip = \<lparr> clip_id = toString now,
                         clip_type = (if take 5 fileType = ''video'' then Video else Image),
                         src = url,
                         name = fileName,
                         duration = 10,
                         startTime = 0,
                         offset = 0 \<rparr>
         in st\<lparr>clips := [newClip], selectedClipId := Some (clip_id newClip)\<rparr>)
      else st)"

text \<open>
  \<open>addToTimeline\<close> (lines 222-236); \<open>now\<close> is the value of \<open>Date.now()\<close>. The source
  restricts the parameter \<open>type\<close> to \<open>'image' | 'video'\<close>.
\<close>

definition addToTimeline :: "nat \<Rightarrow> string \<Rightarrow> ClipType \<Rightarrow> EditorState \<Rightarrow> EditorState" where
  "addToTimeline now source ty st =
     (let newClip = \<lparr> clip_id = toString now,
                      clip_type = ty,
                      src = source,
                      name = (if ty = Image then ''Generated Image'' else ''Video Clip''),
                      duration = 5,
                      startTime = currentTime st,
                      offset = 0 \<rparr>
      in st\<lparr>clips := clips st @ [newClip]\<rparr>)"

text \<open>
  The \<open>onSelectClip\<close> callback handed to the timeline (line 431), which the timeline calls
  with the id of a clip it renders (src/components/Timeline.tsx, line 64).
\<close>

definition onSelectClip :: "string \<Rightarrow> EditorState \<Rightarrow> EditorState" where
  "onSelectClip i st = st\<lparr>selectedClipId := Some i\<rparr>"

text \<open>
  \<open>handleDelete\<close> (lines 121-129). The guard \<open>if (editorState.selectedClipId)\<close> is false
  for \<open>null\<close> and for the empty string.
\<close>

definition handleDelete :: "EditorState \<Rightarrow> EditorState" where
  "handleDelete st =
     (case selectedClipId st of
        None \<Rightarrow> st
      | Some sel \<Rightarrow>
          if sel = '''' then st
          else st\<lparr>clips := filter (\<lambda>c. Some (clip_id c) \<noteq> selectedClipId st) (clips st),
                  selectedClipId := None\<rparr>)"

section \<open>Projection at the playhead (lines 238-254)\<close>

definition activeClip :: "EditorState \<Rightarrow> EditorClip option" where
  "activeClip st =
     List.find (\<lambda>c. currentTime st \<ge> startTime c \<and>
                     currentTime st < fadd (startTime c) (duration c) \<and>
                     clip_type c = Video) (clips st)"

text \<open>
  \<open>playerSrc\<close>: \<open>x?.src || null\<close> is \<open>null\<close> when nothing is found and when the source
  found is the empty string.
\<close>

definition playerSrc :: "EditorState \<Rightarrow> string option" where
  "playerSrc st =
     (case activeClip st of
        Some c \<Rightarrow> Some (src c)
      | None \<Rightarrow>
          (case List.find (\<lambda>c. clip_type c = Video) (clips st) of
             None \<Rightarrow> None
           | Some c \<Rightarrow> if src c = '''' then None else Some (src c)))"

definition activeCaptions :: "EditorState \<Rightarrow> string list" where
  "activeCaptions st =
     map name
       (filter (\<lambda>c. clip_type c = Text \<and>
                     currentTime st \<ge> startTime c \<and>
                     currentTime st < fadd (startTime c) (duration c)) (clips st))"

text \<open>
  The render step of lines 238-254 as one function of the editor state: the three values it
  computes, paired with the editor state after it. The three expressions assign to nothing,
  so the state comes back as it went in.
\<close>

definition project :: "EditorState \<Rightarrow> (EditorClip option \<times> string option \<times> string list) \<times> EditorState" where
  "project st = ((activeClip st, playerSrc st, activeCaptions st), st)"

section \<open>The specification's wording\<close>

text \<open>
  The caption aligner as the specification words it, per caption, with its sums and
  differences taken in the arithmetic of the program: the overlap test against the trim
  window, the re-projection to clip-local time with its clamp, the rejection of a clamped
  length that is not positive, and the placement of the emitted text clip (kind, timeline
  start, timeline duration, label).
\<close>

definition spec_keep :: "EditorClip \<Rightarrow> Caption \<Rightarrow> bool" where
  "spec_keep sourceClip cap =
     (cap_startTime cap < fadd (offset sourceClip) (duration sourceClip) \<and>
      cap_endTime cap > offset sourceClip)"

definition spec_clampedStart :: "EditorClip \<Rightarrow> Caption \<Rightarrow> real" where
  "spec_clampedStart sourceClip cap = max 0 (fsub (cap_startTime cap) (offset sourceClip))"

definition spec_clampedEnd :: "EditorClip \<Rightarrow> Caption \<Rightarrow> real" where
  "spec_clampedEnd sourceClip cap =
     min (duration sourceClip) (fsub (cap_endTime cap) (offset sourceClip))"

definition spec_emit :: "EditorClip \<Rightarrow> Caption \<Rightarrow> (ClipType \<times> real \<times> real \<times> string) option" where
  "spec_emit sourceClip cap =
     (if \<not> spec_keep sourceClip cap then None
      else if fsub (spec_clampedEnd sourceClip cap) (spec_clampedStart sourceClip cap) \<le> 0
      then None
      else Some (Text,
                 fadd (startTime sourceClip) (spec_clampedStart sourceClip cap),
                 fsub (spec_clampedEnd sourceClip cap) (spec_clampedStart sourceClip cap),
                 cap_text cap))"

text \<open>What the specification fixes of an emitted clip; its id is left out.\<close>

definition placement :: "EditorClip \<Rightarrow> ClipType \<times> real \<times> real \<times> string" where
  "placement c = (clip_type c, startTime c, duration c, name c)"

text \<open>The half-open timeline interval of a clip, its end as the program computes it.\<close>

definition containsTime :: "EditorClip \<Rightarrow> real \<Rightarrow> bool" where
  "containsTime c t = (startTime c \<le> t \<and> t < fadd (startTime c) (duration c))"

text \<open>
  The active visual clip as the specification words it: among the video and image clips
  whose interval contains the time, the last one in collection order.
\<close>

definition spec_activeVisualClip :: "EditorClip list \<Rightarrow> real \<Rightarrow> EditorClip option" where
  "spec_activeVisualClip cs t =
     (case filter (\<lambda>c. (clip_type c = Video \<or> clip_type c = Image) \<and> containsTime c t) cs of
        [] \<Rightarrow> None
      | m # ms \<Rightarrow> Some (last (m # ms)))"


text \<open>
  What the handlers keep true of the selection: every stored clip has an id that is not
  empty, and the selected id, if there is one, is the id of a stored clip.
\<close>

definition storeInvariant :: "EditorState \<Rightarrow> bool" where
  "storeInvariant st =
     ((\<forall>c \<in> set (clips st). clip_id c \<noteq> '''') \<and>
      (case selectedClipId st of None \<Rightarrow> True | Some i \<Rightarrow> i \<in> clip_id ` set (clips st)))"




section \<open>Rounding\<close>

lemma rne_of_int: "rne (of_int k) = k"
  by (simp add: rne_def)

lemma rne_bounds: "\<lfloor>q\<rfloor> \<le> rne q" "rne q \<le> \<lfloor>q\<rfloor> + 1"
  by (simp_all add: rne_def Let_def)

lemma rne_mono:
  assumes "p \<le> q"
  shows "rne p \<le> rne q"
proof (cases "\<lfloor>p\<rfloor> = \<lfloor>q\<rfloor>")
  case True
  with assms have "p - of_int \<lfloor>p\<rfloor> \<le> q - of_int \<lfloor>q\<rfloor>" by simp
  with True show ?thesis by (auto simp: rne_def Let_def)
next
  case False
  with assms have "\<lfloor>p\<rfloor> < \<lfloor>q\<rfloor>" by (simp add: floor_mono order.strict_iff_order)
  then have "\<lfloor>p\<rfloor> + 1 \<le> \<lfloor>q\<rfloor>" by simp
  with rne_bounds(2) [of p] rne_bounds(1) [of q] show ?thesis by linarith
qed

lemma rne_minus: "rne (- q) = - rne q"
proof (cases "q = of_int \<lfloor>q\<rfloor>")
  case True
  then obtain k where "q = of_int k" ..
  then have "rne (- q) = rne (of_int (- k))" by simp
  also have "\<dots> = - k" by (simp only: rne_of_int)
  finally show ?thesis using \<open>q = of_int k\<close> by (simp add: rne_of_int)
next
  case False
  then have fl: "\<lfloor>- q\<rfloor> = - \<lfloor>q\<rfloor> - 1"
    by (metis Ints_of_int ceiling_altdef ceiling_def diff_minus_eq_add minus_diff_eq minus_minus of_int_floor_cancel add.commute uminus_add_conv_diff)
  show ?thesis
    unfolding rne_def Let_def fl by (auto simp: algebra_simps)
qed

lemma round_double_zero [simp]: "round_double 0 = 0"
  by (simp add: round_double_def)

lemma binade_bounds:
  assumes "x \<noteq> 0"
  shows "2 powr of_int (binade x) \<le> \<bar>x\<bar>" "\<bar>x\<bar> < 2 powr (of_int (binade x) + 1)"
proof -
  from assms have pos: "0 < \<bar>x\<bar>" by simp
  have "of_int (binade x) \<le> log 2 \<bar>x\<bar>" by (simp add: binade_def)
  then show "2 powr of_int (binade x) \<le> \<bar>x\<bar>"
    using pos by (simp add: le_log_iff)
  have "log 2 \<bar>x\<bar> < of_int (binade x) + 1" by (simp add: binade_def)
  then show "\<bar>x\<bar> < 2 powr (of_int (binade x) + 1)"
    using pos by (simp add: log_less_iff)
qed

lemma binade_mono:
  assumes "0 < x" "x \<le> y"
  shows "binade x \<le> binade y"
  using assms by (simp add: binade_def floor_mono)

lemma binade_minus: "binade (- x) = binade x"
  by (simp add: binade_def)

lemma round_double_minus: "round_double (- x) = - round_double x"
  by (simp add: round_double_def binade_minus rne_minus Let_def)

lemma round_double_pos_bounds:
  assumes "0 < x"
  shows "2 powr of_int (binade x) \<le> round_double x"
    and "round_double x \<le> 2 powr (of_int (binade x) + 1)"
proof -
  let ?e = "of_int (binade x) :: real"
  let ?u = "2 powr (?e - 52)"
  have u: "0 < ?u" by simp
  from assms have nz: "x \<noteq> 0" by simp
  have lo: "2 powr ?e = of_int (2 ^ 52) * ?u" and hi: "2 powr (?e + 1) = of_int (2 ^ 53) * ?u"
    by (simp_all add: powr_diff powr_add)
  from binade_bounds [OF nz] assms have b: "2 powr ?e \<le> x" "x < 2 powr (?e + 1)" by simp_all
  from b(1) lo u have "of_int (2 ^ 52) \<le> x / ?u" by (simp add: pos_le_divide_eq)
  from rne_mono [OF this] have l: "2 ^ 52 \<le> rne (x / ?u)" by (simp only: rne_of_int)
  from b(2) hi u have "x / ?u \<le> of_int (2 ^ 53)" by (simp add: pos_divide_le_eq)
  from rne_mono [OF this] have h: "rne (x / ?u) \<le> 2 ^ 53" by (simp only: rne_of_int)
  have r: "round_double x = of_int (rne (x / ?u)) * ?u"
    using nz by (simp add: round_double_def Let_def)
  from l have "of_int (2 ^ 52) * ?u \<le> of_int (rne (x / ?u)) * ?u"
    using u by (simp only: mult_le_cancel_right_pos of_int_le_iff)
  with lo r show "2 powr ?e \<le> round_double x" by simp
  from h have "of_int (rne (x / ?u)) * ?u \<le> of_int (2 ^ 53) * ?u"
    using u by (simp only: mult_le_cancel_right_pos of_int_le_iff)
  with hi r show "round_double x \<le> 2 powr (?e + 1)" by simp
qed

lemma round_double_pos: "0 < x \<Longrightarrow> 0 < round_double x"
  using round_double_pos_bounds(1) [of x] powr_gt_zero [of 2 "of_int (binade x)"] by linarith

lemma round_double_mono_pos:
  assumes "0 < x" "x \<le> y"
  shows "round_double x \<le> round_double y"
proof (cases "binade x = binade y")
  case True
  let ?u = "2 powr (of_int (binade y) - 52) :: real"
  have u: "0 < ?u" by simp
  from assms have "x / ?u \<le> y / ?u" by (simp add: divide_right_mono)
  from rne_mono [OF this] have "of_int (rne (x / ?u)) * ?u \<le> of_int (rne (y / ?u)) * ?u"
    using u by (simp only: mult_le_cancel_right_pos of_int_le_iff)
  with assms True show ?thesis by (simp add: round_double_def Let_def)
next
  case False
  with binade_mono [OF assms] have "binade x + 1 \<le> binade y" by simp
  then have "(of_int (binade x) + 1 :: real) \<le> of_int (binade y)" by linarith
  then have "(2::real) powr (of_int (binade x) + 1) \<le> 2 powr of_int (binade y)"
    by (simp only: powr_le_cancel_iff) 
  with round_double_pos_bounds(2) [OF assms(1)] round_double_pos_bounds(1) [of y] assms
  show ?thesis by linarith
qed

lemma round_double_mono:
  assumes "x \<le> y"
  shows "round_double x \<le> round_double y"
proof -
  consider "0 < x" | "y < 0" | "x \<le> 0" "0 \<le> y" by linarith
  then show ?thesis
  proof cases
    case 1
    from 1 assms show ?thesis by (rule round_double_mono_pos)
  next
    case 2
    with assms have "0 < - y" "- y \<le> - x" by simp_all
    from round_double_mono_pos [OF this] show ?thesis by (simp add: round_double_minus)
  next
    case 3
    have "round_double x \<le> 0"
    proof (cases "x = 0")
      case True then show ?thesis by (simp add: round_double_zero)
    next
      case False
      with 3 have "0 < - x" by simp
      from round_double_pos [OF this] show ?thesis by (simp add: round_double_minus)
    qed
    moreover have "0 \<le> round_double y"
    proof (cases "y = 0")
      case True then show ?thesis by (simp add: round_double_zero)
    next
      case False
      with 3 have "0 < y" by simp
      from round_double_pos [OF this] show ?thesis by simp
    qed
    ultimately show ?thesis by simp
  qed
qed


lemma round_double_of_int:
  assumes "\<bar>n\<bar> < 2 ^ 53"
  shows "round_double (of_int n) = of_int n"
proof (cases "n = 0")
  case True
  then show ?thesis by (simp add: round_double_zero)
next
  case False
  let ?x = "of_int n :: real"
  from False have nz: "?x \<noteq> 0" by simp
  have ax: "\<bar>?x\<bar> = of_int \<bar>n\<bar>" by simp
  from False have "1 \<le> \<bar>n\<bar>" by simp
  then have "(of_int 1 :: real) \<le> of_int \<bar>n\<bar>" by (simp only: of_int_le_iff)
  with ax have "1 \<le> \<bar>?x\<bar>" by simp
  then have "0 \<le> log 2 \<bar>?x\<bar>" by simp
  then have lo: "0 \<le> binade ?x" by (simp add: binade_def)
  from assms have "(of_int \<bar>n\<bar> :: real) < of_int (2 ^ 53)" by (simp only: of_int_less_iff)
  with ax have "\<bar>?x\<bar> < 2 ^ 53" by simp
  then have "\<bar>?x\<bar> < 2 powr 53" by simp
  then have "log 2 \<bar>?x\<bar> < 53" using nz by (simp add: log_less_iff)
  then have hi: "binade ?x \<le> 52" by (simp add: binade_def floor_less_iff[symmetric] ) 
  define k where "k = nat (52 - binade ?x)"
  from lo hi have e: "of_int (binade ?x) - 52 = - real k" by (simp add: k_def)
  have u: "2 powr (of_int (binade ?x) - 52) = 1 / (2::real) ^ k"
    unfolding e by (simp add: powr_minus powr_realpow divide_simps)
  have "?x / (1 / 2 ^ k) = of_int (n * 2 ^ k)" by simp
  then have "rne (?x / (1 / 2 ^ k)) = n * 2 ^ k" by (simp only: rne_of_int)
  with nz u show ?thesis by (simp add: round_double_def Let_def)
qed

lemma round_double_numeral [simp]:
  "numeral w < (2::int) ^ 53 \<Longrightarrow> round_double (numeral w) = numeral w"
  using round_double_of_int [of "numeral w"] by simp

lemma round_double_neg_numeral [simp]:
  "numeral w < (2::int) ^ 53 \<Longrightarrow> round_double (- numeral w) = - numeral w"
  using round_double_of_int [of "- numeral w"] by simp

lemma round_double_one [simp]: "round_double 1 = 1"
  using round_double_of_int [of 1] by simp

lemma round_double_neg_one [simp]: "round_double (- 1) = - 1"
  using round_double_of_int [of "- 1"] by simp


text \<open>Doubles are fixed by the rounding; sums and differences are monotone.\<close>

lemma isDouble_numeral [simp]: "numeral w < (2::int) ^ 53 \<Longrightarrow> isDouble (numeral w)"
  by (simp add: isDouble_def)

lemma isDouble_zero [simp]: "isDouble 0"
  by (simp add: isDouble_def)



lemma fsub_nonpos: "b \<le> a \<Longrightarrow> fsub b a \<le> 0"
  using round_double_mono [of "b - a" 0] by (simp add: fsub_def)

lemma fsub_mono_left: "a \<le> b \<Longrightarrow> fsub a x \<le> fsub b x"
  by (simp add: fsub_def round_double_mono)








section \<open>Caption alignment\<close>

lemma captionToClip_placement:
  "map_option placement (captionToClip clock sc cap i) =
     (if fsub (spec_clampedEnd sc cap) (spec_clampedStart sc cap) \<le> 0 then None
      else Some (Text, fadd (startTime sc) (spec_clampedStart sc cap),
                 fsub (spec_clampedEnd sc cap) (spec_clampedStart sc cap), cap_text cap))"
  by (simp add: captionToClip_def placement_def spec_clampedStart_def spec_clampedEnd_def Let_def)

text \<open>The index only enters the id, so the placements do not depend on where counting starts.\<close>

lemma filterBoolean_enumerate:
  "map placement
     (filterBoolean (map (\<lambda>(index, cap). captionToClip clock sc cap index) (enumerate n xs)))
   = List.map_filter (\<lambda>cap. map_option placement (captionToClip clock sc cap 0)) xs"
proof (induction xs arbitrary: n)
  case Nil
  show ?case by simp
next
  case (Cons x xs)
  have same: "map_option placement (captionToClip clock sc x n)
              = map_option placement (captionToClip clock sc x 0)"
    by (simp only: captionToClip_placement)
  show ?case
  proof (cases "captionToClip clock sc x n")
    case None
    with same have "captionToClip clock sc x 0 = None" by simp
    with None Cons.IH [of "Suc n"] show ?thesis by simp
  next
    case (Some c)
    with same obtain c0 where "captionToClip clock sc x 0 = Some c0" "placement c0 = placement c"
      by (cases "captionToClip clock sc x 0") auto
    with Some Cons.IH [of "Suc n"] show ?thesis by simp
  qed
qed

lemma newClips_placement:
  "map placement (newClips clock sc caps) = List.map_filter (spec_emit sc) caps"
proof -
  have "List.map_filter (\<lambda>cap. map_option placement (captionToClip clock sc cap 0))
          (filter (inTrimmedRange sc) caps)
        = List.map_filter (spec_emit sc) caps"
  proof (induction caps)
    case Nil
    show ?case by simp
  next
    case (Cons a caps)
    have k: "inTrimmedRange sc a = spec_keep sc a"
      by (simp add: inTrimmedRange_def spec_keep_def)
    show ?case using Cons
      by (simp add: k captionToClip_placement spec_emit_def)
  qed
  then show ?thesis by (simp add: newClips_def filterBoolean_enumerate)
qed

text \<open>
  C1. For every source clip and every sequence of well-formed caption spans
  (\<open>startTime < endTime\<close>), the clips the aligner emits are, in kind, timeline start,
  timeline duration and label, exactly what the specification's per-caption rule gives:
  a span is kept iff \<open>startTime < offset + duration\<close> and \<open>endTime > offset\<close>, moved to
  local time by subtracting the offset, clamped to \<open>[0, duration]\<close>, dropped when the
  clamped length is not positive, and otherwise placed at the source clip's timeline start
  plus the clamped start, with the clamped length as duration and the caption text as
  label, every sum and difference being the program's. Against \<open>offset = 2\<close>, \<open>duration = 4\<close> the caption \<open>{5,8}\<close> gives one clip at
  timeline start + 3 of duration 1, the caption \<open>{0,1}\<close> gives none, and the caption
  \<open>{6,9}\<close> gives none: its clamped length is zero, so the map callback returns \<open>null\<close>
  on it at every index (in the handler the overlap test comes first and already drops it,
  \<open>6 < 2 + 4\<close> being false).
\<close>

theorem caption_alignment:
  assumes "\<forall>cap \<in> set captions. cap_startTime cap < cap_endTime cap"
  shows "map placement (newClips clock sourceClip captions)
           = List.map_filter (spec_emit sourceClip) captions
       \<and> map placement (newClips clock (sourceClip\<lparr>offset := 2, duration := 4\<rparr>)
                          [\<lparr>cap_startTime = 5, cap_endTime = 8, cap_text = t\<rparr>])
           = [(Text, fadd (startTime sourceClip) 3, 1, t)]
       \<and> newClips clock (sourceClip\<lparr>offset := 2, duration := 4\<rparr>)
                          [\<lparr>cap_startTime = 0, cap_endTime = 1, cap_text = t\<rparr>] = []
       \<and> newClips clock (sourceClip\<lparr>offset := 2, duration := 4\<rparr>)
                          [\<lparr>cap_startTime = 6, cap_endTime = 9, cap_text = t\<rparr>] = []
       \<and> captionToClip clock (sourceClip\<lparr>offset := 2, duration := 4\<rparr>)
                          \<lparr>cap_startTime = 6, cap_endTime = 9, cap_text = t\<rparr> index = None"
proof -
  have a: "map placement (newClips clock sourceClip captions)
             = List.map_filter (spec_emit sourceClip) captions"
    by (rule newClips_placement)
  have b: "map placement (newClips clock (sourceClip\<lparr>offset := 2, duration := 4\<rparr>)
                          [\<lparr>cap_startTime = 5, cap_endTime = 8, cap_text = t\<rparr>])
           = [(Text, fadd (startTime sourceClip) 3, 1, t)]"
    by (simp add: newClips_placement spec_emit_def spec_keep_def
                  spec_clampedStart_def spec_clampedEnd_def fadd_def fsub_def)
  have c: "newClips clock (sourceClip\<lparr>offset := 2, duration := 4\<rparr>)
                          [\<lparr>cap_startTime = 0, cap_endTime = 1, cap_text = t\<rparr>] = []"
    by (simp add: newClips_def inTrimmedRange_def fadd_def)
  have d: "newClips clock (sourceClip\<lparr>offset := 2, duration := 4\<rparr>)
                          [\<lparr>cap_startTime = 6, cap_endTime = 9, cap_text = t\<rparr>] = []"
    by (simp add: newClips_def inTrimmedRange_def fadd_def)
  have e: "captionToClip clock (sourceClip\<lparr>offset := 2, duration := 4\<rparr>)
                          \<lparr>cap_startTime = 6, cap_endTime = 9, cap_text = t\<rparr> index = None"
    by (simp add: captionToClip_def fsub_def)
  from a b c d e show ?thesis by simp
qed

theorem caption_alignment_witness:
  "list_all (\<lambda>cap. cap_startTime cap < cap_endTime cap)
       [\<lparr>cap_startTime = 0, cap_endTime = 1, cap_text = ''a''\<rparr>,
        \<lparr>cap_startTime = 5, cap_endTime = 8, cap_text = ''b''\<rparr>,
        \<lparr>cap_startTime = 6, cap_endTime = 9, cap_text = ''c''\<rparr>,
        \<lparr>cap_startTime = 1, cap_endTime = 3, cap_text = ''d''\<rparr>]
   \<and> map placement
       (newClips Suc
          \<lparr>clip_id = ''1'', clip_type = Video, src = ''blob:v'', name = ''Video Clip'',
           duration = 4, startTime = 10, offset = 2\<rparr>
          [\<lparr>cap_startTime = 0, cap_endTime = 1, cap_text = ''a''\<rparr>,
           \<lparr>cap_startTime = 5, cap_endTime = 8, cap_text = ''b''\<rparr>,
           \<lparr>cap_startTime = 6, cap_endTime = 9, cap_text = ''c''\<rparr>,
           \<lparr>cap_startTime = 1, cap_endTime = 3, cap_text = ''d''\<rparr>])
     = [(Text, 13, 1, ''b''), (Text, 10, 1, ''d'')]"
proof -
  have wf: "\<forall>cap \<in> set [\<lparr>cap_startTime = 0, cap_endTime = 1, cap_text = ''a''\<rparr>,
                   \<lparr>cap_startTime = 5, cap_endTime = 8, cap_text = ''b''\<rparr>,
                   \<lparr>cap_startTime = 6, cap_endTime = 9, cap_text = ''c''\<rparr>,
                   \<lparr>cap_startTime = (1::real), cap_endTime = 3, cap_text = ''d''\<rparr>].
       cap_startTime cap < cap_endTime cap"
    by simp
  show ?thesis
    using wf caption_alignment [OF wf, of Suc
          "\<lparr>clip_id = ''1'', clip_type = Video, src = ''blob:v'', name = ''Video Clip'',
           duration = 4, startTime = 10, offset = 2\<rparr>"]
    by (simp add: spec_emit_def spec_keep_def spec_clampedStart_def spec_clampedEnd_def
                  fadd_def fsub_def)
qed

section \<open>What the aligner emits\<close>

lemma set_filterBoolean: "set (filterBoolean xs) = {x. Some x \<in> set xs}"
  by (induction xs rule: filterBoolean.induct) auto

lemma newClips_origin:
  assumes "c \<in> set (newClips clock sc caps)"
  shows "\<exists>cap i. cap \<in> set caps \<and> inTrimmedRange sc cap \<and> captionToClip clock sc cap i = Some c"
proof -
  from assms obtain i cap where
    ic: "(i, cap) \<in> set (enumerate 0 (filter (inTrimmedRange sc) caps))"
    and c: "captionToClip clock sc cap i = Some c"
    by (auto simp: newClips_def set_filterBoolean)
  from ic have "cap \<in> set (filter (inTrimmedRange sc) caps)"
    by (auto simp: in_set_enumerate_eq simp del: set_filter)
  then have "cap \<in> set caps" "inTrimmedRange sc cap" by simp_all
  with c show ?thesis by blast
qed

lemma captionToClip_Some:
  assumes "captionToClip clock sc cap i = Some c"
  shows "clip_type c = Text \<and> src c = '''' \<and> offset c = 0 \<and> 0 < duration c
       \<and> name c = cap_text cap \<and> clip_id c \<noteq> ''''
       \<and> startTime c = fadd (startTime sc) (spec_clampedStart sc cap)
       \<and> duration c = fsub (spec_clampedEnd sc cap) (spec_clampedStart sc cap)"
  using assms
  by (auto simp: captionToClip_def spec_clampedStart_def spec_clampedEnd_def Let_def
           split: if_splits)






section \<open>Malformed caption spans\<close>

lemma malformed_clamped:
  assumes "cap_endTime cap \<le> cap_startTime cap"
  shows "fsub (spec_clampedEnd sc cap) (spec_clampedStart sc cap) \<le> 0"
proof -
  from fsub_mono_left [OF assms]
  have "fsub (cap_endTime cap) (offset sc) \<le> fsub (cap_startTime cap) (offset sc)" .
  then have "spec_clampedEnd sc cap \<le> spec_clampedStart sc cap"
    by (simp add: spec_clampedEnd_def spec_clampedStart_def min_def max_def)
  then show ?thesis by (rule fsub_nonpos)
qed

lemma malformed_captionToClip:
  assumes "cap_endTime cap \<le> cap_startTime cap"
  shows "captionToClip clock sc cap i = None"
proof -
  have "map_option placement (captionToClip clock sc cap i) = None"
    using malformed_clamped [OF assms] by (simp add: captionToClip_placement)
  then show ?thesis by simp
qed

lemma malformed_spec_emit:
  assumes "cap_endTime cap \<le> cap_startTime cap"
  shows "spec_emit sc cap = None"
  using malformed_clamped [OF assms] by (simp add: spec_emit_def)

lemma map_filter_drop:
  "f x = None \<Longrightarrow> List.map_filter f (xs @ x # ys) = List.map_filter f (xs @ ys)"
  by (simp add: List.map_filter_def)

text \<open>
  C9, as amended. For every source clip and every malformed caption span
  (\<open>startTime \<ge> endTime\<close>), the aligner emits no clip for the span, wherever it stands in
  the batch: the map callback returns \<open>null\<close> on it at every index, the placements of the
  emitted clips are those of the batch without the span, and every emitted clip has a
  strictly positive duration. The span is dropped silently: the code has no diagnostic for
  it.
\<close>

theorem malformed_span_dropped:
  assumes "cap_startTime cap \<ge> cap_endTime cap"
  shows "captionToClip clock sourceClip cap index = None
       \<and> newClips clock sourceClip [cap] = []
       \<and> map placement (newClips clock sourceClip (before @ cap # after))
           = map placement (newClips clock sourceClip (before @ after))
       \<and> (\<forall>c \<in> set (newClips clock sourceClip (before @ cap # after)). 0 < duration c)"
proof -
  have a: "captionToClip clock sourceClip cap index = None"
    using assms by (rule malformed_captionToClip)
  have "map placement (newClips clock sourceClip [cap]) = []"
    using malformed_spec_emit [OF assms] by (simp add: newClips_placement)
  then have b: "newClips clock sourceClip [cap] = []" by simp
  have c: "map placement (newClips clock sourceClip (before @ cap # after))
           = map placement (newClips clock sourceClip (before @ after))"
    using malformed_spec_emit [OF assms] by (simp add: newClips_placement map_filter_drop)
  have d: "0 < duration c" if "c \<in> set (newClips clock sourceClip (before @ cap # after))" for c
  proof -
    from that obtain cp i where "captionToClip clock sourceClip cp i = Some c"
      using newClips_origin by blast
    from captionToClip_Some [OF this] show ?thesis by simp
  qed
  from a b c d show ?thesis by simp
qed

theorem malformed_span_dropped_witness:
  "(3::real) \<le> 5
   \<and> map placement
       (newClips Suc
          \<lparr>clip_id = ''1'', clip_type = Video, src = ''blob:v'', name = ''Video Clip'',
           duration = 10, startTime = 0, offset = 0\<rparr>
          [\<lparr>cap_startTime = 1, cap_endTime = 2, cap_text = ''hi''\<rparr>,
           \<lparr>cap_startTime = 5, cap_endTime = 3, cap_text = ''bad''\<rparr>,
           \<lparr>cap_startTime = 4, cap_endTime = 6, cap_text = ''yo''\<rparr>])
     = [(Text, 1, 1, ''hi''), (Text, 4, 2, ''yo'')]"
proof -
  have h: "cap_endTime \<lparr>cap_startTime = 5, cap_endTime = 3, cap_text = ''bad''\<rparr>
           \<le> cap_startTime \<lparr>cap_startTime = (5::real), cap_endTime = 3, cap_text = ''bad''\<rparr>"
    by simp
  show ?thesis
    using malformed_span_dropped [OF h, of Suc
           "\<lparr>clip_id = ''1'', clip_type = Video, src = ''blob:v'', name = ''Video Clip'',
             duration = 10, startTime = 0, offset = 0\<rparr>" 0
           "[\<lparr>cap_startTime = 1, cap_endTime = 2, cap_text = ''hi''\<rparr>]"
           "[\<lparr>cap_startTime = 4, cap_endTime = 6, cap_text = ''yo''\<rparr>]"]
    by (simp add: newClips_placement spec_emit_def spec_keep_def spec_clampedStart_def
                  spec_clampedEnd_def fadd_def fsub_def)
qed

text \<open>
  C9 as stated fails: the handler reports through \<open>alert\<close> only, and a batch of one good
  and one malformed span ends with no alert and in the same state as the batch without the
  malformed span.
\<close>

theorem malformed_span_no_diagnostic:
  "handleAutoCaptions Suc
     (Inr [\<lparr>cap_startTime = 1, cap_endTime = 2, cap_text = ''hi''\<rparr>,
           \<lparr>cap_startTime = 5, cap_endTime = 3, cap_text = ''bad''\<rparr>])
     \<lparr>currentTime = 0, st_duration = 10, isPlaying = False, selectedClipId = Some ''1'',
      clips = [\<lparr>clip_id = ''1'', clip_type = Video, src = ''blob:v'', name = ''Video Clip'',
                duration = 10, startTime = 0, offset = 0\<rparr>],
      zoomLevel = 1\<rparr>
   = handleAutoCaptions Suc
     (Inr [\<lparr>cap_startTime = 1, cap_endTime = 2, cap_text = ''hi''\<rparr>])
     \<lparr>currentTime = 0, st_duration = 10, isPlaying = False, selectedClipId = Some ''1'',
      clips = [\<lparr>clip_id = ''1'', clip_type = Video, src = ''blob:v'', name = ''Video Clip'',
                duration = 10, startTime = 0, offset = 0\<rparr>],
      zoomLevel = 1\<rparr>
   \<and> fst (handleAutoCaptions Suc
     (Inr [\<lparr>cap_startTime = 1, cap_endTime = 2, cap_text = ''hi''\<rparr>,
           \<lparr>cap_startTime = 5, cap_endTime = 3, cap_text = ''bad''\<rparr>])
     \<lparr>currentTime = 0, st_duration = 10, isPlaying = False, selectedClipId = Some ''1'',
      clips = [\<lparr>clip_id = ''1'', clip_type = Video, src = ''blob:v'', name = ''Video Clip'',
                duration = 10, startTime = 0, offset = 0\<rparr>],
      zoomLevel = 1\<rparr>) = None
   \<and> map placement (clips (snd (handleAutoCaptions Suc
     (Inr [\<lparr>cap_startTime = 1, cap_endTime = 2, cap_text = ''hi''\<rparr>,
           \<lparr>cap_startTime = 5, cap_endTime = 3, cap_text = ''bad''\<rparr>])
     \<lparr>currentTime = 0, st_duration = 10, isPlaying = False, selectedClipId = Some ''1'',
      clips = [\<lparr>clip_id = ''1'', clip_type = Video, src = ''blob:v'', name = ''Video Clip'',
                duration = 10, startTime = 0, offset = 0\<rparr>],
      zoomLevel = 1\<rparr>)))
     = [(Video, 0, 10, ''Video Clip''), (Text, 1, 1, ''hi'')]"
  by (simp add: handleAutoCaptions_def newClips_def inTrimmedRange_def captionToClip_def
                placement_def fadd_def fsub_def)

section \<open>Outcomes of the caption handler\<close>

text \<open>
  C7. With a video clip selected: an empty caption sequence ends with the alert
  \<open>No speech detected or generation failed.\<close>, a non-empty sequence of which no caption
  survives ends with the different alert
  \<open>Captions generated but none fall within the trimmed video segment.\<close>, and both leave
  the editor state as it was; a non-empty sequence with survivors ends with no alert and
  the emitted clips appended; and whatever the generation returns, the clip collection
  changes only by appending a non-empty sequence of emitted clips.
\<close>

theorem caption_outcomes:
  assumes "List.find (\<lambda>c. Some (clip_id c) = selectedClipId st) (clips st) = Some sel"
    and "clip_type sel = Video"
  shows "handleAutoCaptions clock (Inr []) st
           = (Some ''No speech detected or generation failed.'', st)
       \<and> (captions \<noteq> [] \<and> newClips clock sel captions = [] \<longrightarrow>
            handleAutoCaptions clock (Inr captions) st
              = (Some ''Captions generated but none fall within the trimmed video segment.'', st)
          \<and> fst (handleAutoCaptions clock (Inr captions) st)
              \<noteq> fst (handleAutoCaptions clock (Inr []) st))
       \<and> (captions \<noteq> [] \<and> newClips clock sel captions \<noteq> [] \<longrightarrow>
            handleAutoCaptions clock (Inr captions) st
              = (None, st\<lparr>clips := clips st @ newClips clock sel captions\<rparr>))
       \<and> (clips (snd (handleAutoCaptions clock generated st)) \<noteq> clips st \<longrightarrow>
            (\<exists>cs. generated = Inr cs \<and> newClips clock sel cs \<noteq> []
                 \<and> clips (snd (handleAutoCaptions clock generated st))
                     = clips st @ newClips clock sel cs))"
proof -
  have a: "handleAutoCaptions clock (Inr []) st
           = (Some ''No speech detected or generation failed.'', st)"
    using assms by (simp add: handleAutoCaptions_def)
  have b: "handleAutoCaptions clock (Inr captions) st
              = (Some ''Captions generated but none fall within the trimmed video segment.'', st)"
    if "captions \<noteq> []" "newClips clock sel captions = []"
    using assms that by (simp add: handleAutoCaptions_def)
  have c: "handleAutoCaptions clock (Inr captions) st
              = (None, st\<lparr>clips := clips st @ newClips clock sel captions\<rparr>)"
    if "captions \<noteq> []" "newClips clock sel captions \<noteq> []"
    using assms that by (simp add: handleAutoCaptions_def)
  have d: "\<exists>cs. generated = Inr cs \<and> newClips clock sel cs \<noteq> []
                 \<and> clips (snd (handleAutoCaptions clock generated st))
                     = clips st @ newClips clock sel cs"
    if "clips (snd (handleAutoCaptions clock generated st)) \<noteq> clips st"
    using assms that
    by (cases generated) (auto simp: handleAutoCaptions_def Let_def split: if_splits)
  from a b show ?thesis using c d by simp
qed

theorem caption_outcomes_witness:
  "handleAutoCaptions Suc (Inr [\<lparr>cap_startTime = 0, cap_endTime = 1, cap_text = ''early''\<rparr>])
     \<lparr>currentTime = 0, st_duration = 10, isPlaying = False, selectedClipId = Some ''1'',
      clips = [\<lparr>clip_id = ''1'', clip_type = Video, src = ''blob:v'', name = ''Video Clip'',
                duration = 4, startTime = 0, offset = 2\<rparr>],
      zoomLevel = 1\<rparr>
   = (Some ''Captions generated but none fall within the trimmed video segment.'',
      \<lparr>currentTime = 0, st_duration = 10, isPlaying = False, selectedClipId = Some ''1'',
      clips = [\<lparr>clip_id = ''1'', clip_type = Video, src = ''blob:v'', name = ''Video Clip'',
                duration = 4, startTime = 0, offset = 2\<rparr>],
      zoomLevel = 1\<rparr>)
  \<and> handleAutoCaptions Suc (Inr [])
     \<lparr>currentTime = 0, st_duration = 10, isPlaying = False, selectedClipId = Some ''1'',
      clips = [\<lparr>clip_id = ''1'', clip_type = Video, src = ''blob:v'', name = ''Video Clip'',
                duration = 4, startTime = 0, offset = 2\<rparr>],
      zoomLevel = 1\<rparr>
   = (Some ''No speech detected or generation failed.'',
      \<lparr>currentTime = 0, st_duration = 10, isPlaying = False, selectedClipId = Some ''1'',
      clips = [\<lparr>clip_id = ''1'', clip_type = Video, src = ''blob:v'', name = ''Video Clip'',
                duration = 4, startTime = 0, offset = 2\<rparr>],
      zoomLevel = 1\<rparr>)"
  (is "handleAutoCaptions Suc (Inr ?caps) ?st = _ \<and> _")
proof -
  let ?sel = "\<lparr>clip_id = ''1'', clip_type = Video, src = ''blob:v'', name = ''Video Clip'',
                duration = 4, startTime = (0::real), offset = (2::real)\<rparr>"
  have f: "List.find (\<lambda>c. Some (clip_id c) = selectedClipId ?st) (clips ?st) = Some ?sel"
    by simp
  have v: "clip_type ?sel = Video" by simp
  have n: "?caps \<noteq> [] \<and> newClips Suc ?sel ?caps = []"
    by (simp add: newClips_def inTrimmedRange_def fadd_def)
  from caption_outcomes [OF f v, of Suc ?caps] n show ?thesis by simp
qed

section \<open>Projection at the playhead\<close>

text \<open>
  C2, as amended. For every clip collection and time value, the active clip of the projection
  is chosen among the clips of kind video (image clips are never chosen) whose half-open
  interval \<open>[startTime, startTime + duration)\<close> contains the time (the sum is the program's), and when several such
  clips overlap the first match in collection order is selected; there is no active clip
  exactly when no video clip's interval contains the time.
\<close>

theorem first_active_video:
  "(activeClip st = Some c \<longleftrightarrow>
      (\<exists>i<length (clips st). clips st ! i = c \<and> clip_type c = Video
          \<and> containsTime c (currentTime st)
          \<and> (\<forall>j<i. \<not> (clip_type (clips st ! j) = Video
                         \<and> containsTime (clips st ! j) (currentTime st)))))
   \<and> (activeClip st = None \<longleftrightarrow>
      (\<forall>d \<in> set (clips st). \<not> (clip_type d = Video \<and> containsTime d (currentTime st))))"
proof -
  have a: "activeClip st = Some c \<longleftrightarrow>
      (\<exists>i<length (clips st). clips st ! i = c \<and> clip_type c = Video
          \<and> containsTime c (currentTime st)
          \<and> (\<forall>j<i. \<not> (clip_type (clips st ! j) = Video
                         \<and> containsTime (clips st ! j) (currentTime st))))"
    unfolding activeClip_def find_Some_iff containsTime_def by auto
  have b: "activeClip st = None \<longleftrightarrow>
      (\<forall>d \<in> set (clips st). \<not> (clip_type d = Video \<and> containsTime d (currentTime st)))"
    unfolding activeClip_def find_None_iff containsTime_def by auto
  from a b show ?thesis by simp
qed

theorem first_active_video_witness:
  "activeClip
     \<lparr>currentTime = 5, st_duration = 10, isPlaying = False, selectedClipId = None,
      clips = [\<lparr>clip_id = ''0'', clip_type = Image, src = ''data:i'', name = ''Generated Image'',
                duration = 10, startTime = 0, offset = 0\<rparr>,
               \<lparr>clip_id = ''1'', clip_type = Video, src = ''blob:a'', name = ''Video Clip'',
                duration = 10, startTime = 0, offset = 0\<rparr>,
               \<lparr>clip_id = ''2'', clip_type = Video, src = ''blob:b'', name = ''Video Clip'',
                duration = 10, startTime = 0, offset = 0\<rparr>],
      zoomLevel = 1\<rparr>
   = Some \<lparr>clip_id = ''1'', clip_type = Video, src = ''blob:a'', name = ''Video Clip'',
           duration = 10, startTime = 0, offset = 0\<rparr>"
  (is "activeClip ?st = Some ?c")
proof -
  have "\<exists>i<length (clips ?st). clips ?st ! i = ?c \<and> clip_type ?c = Video
          \<and> containsTime ?c (currentTime ?st)
          \<and> (\<forall>j<i. \<not> (clip_type (clips ?st ! j) = Video
                         \<and> containsTime (clips ?st ! j) (currentTime ?st)))"
    by (rule exI [of _ 1]) (simp add: containsTime_def fadd_def)
  with first_active_video [of ?st ?c] show ?thesis by blast
qed

text \<open>
  C2 as stated fails twice. With two overlapping video clips the code selects the first in
  collection order where the claim selects the last; with a single image clip whose
  interval contains the time the code selects nothing where the claim selects the image.
\<close>

theorem active_clip_not_last_match:
  "activeClip
     \<lparr>currentTime = 5, st_duration = 10, isPlaying = False, selectedClipId = None,
      clips = [\<lparr>clip_id = ''1'', clip_type = Video, src = ''blob:a'', name = ''Video Clip'',
                duration = 10, startTime = 0, offset = 0\<rparr>,
               \<lparr>clip_id = ''2'', clip_type = Video, src = ''blob:b'', name = ''Video Clip'',
                duration = 10, startTime = 0, offset = 0\<rparr>],
      zoomLevel = 1\<rparr>
   = Some \<lparr>clip_id = ''1'', clip_type = Video, src = ''blob:a'', name = ''Video Clip'',
           duration = 10, startTime = 0, offset = 0\<rparr>
   \<and> spec_activeVisualClip
       [\<lparr>clip_id = ''1'', clip_type = Video, src = ''blob:a'', name = ''Video Clip'',
                duration = 10, startTime = 0, offset = 0\<rparr>,
        \<lparr>clip_id = ''2'', clip_type = Video, src = ''blob:b'', name = ''Video Clip'',
                duration = 10, startTime = 0, offset = 0\<rparr>] 5
   = Some \<lparr>clip_id = ''2'', clip_type = Video, src = ''blob:b'', name = ''Video Clip'',
           duration = 10, startTime = 0, offset = 0\<rparr>
   \<and> activeClip
     \<lparr>currentTime = 5, st_duration = 10, isPlaying = False, selectedClipId = None,
      clips = [\<lparr>clip_id = ''3'', clip_type = Image, src = ''data:i'', name = ''Generated Image'',
                duration = 10, startTime = 0, offset = 0\<rparr>],
      zoomLevel = 1\<rparr>
   = None
   \<and> spec_activeVisualClip
       [\<lparr>clip_id = ''3'', clip_type = Image, src = ''data:i'', name = ''Generated Image'',
                duration = 10, startTime = 0, offset = 0\<rparr>] 5
   = Some \<lparr>clip_id = ''3'', clip_type = Image, src = ''data:i'', name = ''Generated Image'',
                duration = 10, startTime = 0, offset = 0\<rparr>"
  by (simp add: activeClip_def spec_activeVisualClip_def containsTime_def fadd_def)

text \<open>
  C3. For every clip collection and time value, if no video or image clip's interval
  contains the time, then no clip is active and the player source falls back to the first
  clip of kind video in collection order, whatever its interval: it is \<open>null\<close> if the
  collection has no video clip, and otherwise the source of the first video clip (the
  expression \<open>x?.src || null\<close> hands an empty source on as \<open>null\<close>). On the empty
  collection the player source is \<open>null\<close> and the caption list is empty.
\<close>

theorem fallback_first_video:
  assumes "\<forall>c \<in> set (clips st). (clip_type c = Video \<or> clip_type c = Image)
             \<longrightarrow> \<not> containsTime c (currentTime st)"
  shows "activeClip st = None
       \<and> ((\<forall>c \<in> set (clips st). clip_type c \<noteq> Video) \<longrightarrow> playerSrc st = None)
       \<and> (\<forall>i<length (clips st).
             clip_type (clips st ! i) = Video \<and> (\<forall>j<i. clip_type (clips st ! j) \<noteq> Video)
             \<longrightarrow> playerSrc st = (if src (clips st ! i) = '''' then None
                                else Some (src (clips st ! i))))
       \<and> (clips st = [] \<longrightarrow> playerSrc st = None \<and> activeCaptions st = [])"
proof -
  have a: "activeClip st = None"
    using assms unfolding activeClip_def find_None_iff containsTime_def by auto
  have b: "playerSrc st = None" if "\<forall>c \<in> set (clips st). clip_type c \<noteq> Video"
  proof -
    from that have "List.find (\<lambda>c. clip_type c = Video) (clips st) = None"
      by (simp add: find_None_iff)
    with a show ?thesis by (simp add: playerSrc_def)
  qed
  have c: "playerSrc st = (if src (clips st ! i) = '''' then None else Some (src (clips st ! i)))"
    if "i < length (clips st)" "clip_type (clips st ! i) = Video"
       "\<forall>j<i. clip_type (clips st ! j) \<noteq> Video" for i
  proof -
    from that have "List.find (\<lambda>c. clip_type c = Video) (clips st) = Some (clips st ! i)"
      unfolding find_Some_iff by blast
    with a show ?thesis by (simp add: playerSrc_def)
  qed
  have d: "playerSrc st = None \<and> activeCaptions st = []" if "clips st = []"
    using that by (simp add: playerSrc_def activeClip_def activeCaptions_def)
  from a b c d show ?thesis by blast
qed

theorem fallback_first_video_witness:
  "list_all (\<lambda>c. clip_type c = Text \<or> \<not> containsTime c 20)
     [\<lparr>clip_id = ''0'', clip_type = Text, src = '''', name = ''hello'',
       duration = 5, startTime = 0, offset = 0\<rparr>,
      \<lparr>clip_id = ''1'', clip_type = Video, src = ''blob:a'', name = ''Video Clip'',
       duration = 10, startTime = 0, offset = 0\<rparr>,
      \<lparr>clip_id = ''2'', clip_type = Video, src = ''blob:b'', name = ''Video Clip'',
       duration = 5, startTime = 10, offset = 0\<rparr>]
   \<and> playerSrc
     \<lparr>currentTime = 20, st_duration = 10, isPlaying = False, selectedClipId = None,
      clips = [\<lparr>clip_id = ''0'', clip_type = Text, src = '''', name = ''hello'',
                duration = 5, startTime = 0, offset = 0\<rparr>,
               \<lparr>clip_id = ''1'', clip_type = Video, src = ''blob:a'', name = ''Video Clip'',
                duration = 10, startTime = 0, offset = 0\<rparr>,
               \<lparr>clip_id = ''2'', clip_type = Video, src = ''blob:b'', name = ''Video Clip'',
                duration = 5, startTime = 10, offset = 0\<rparr>],
      zoomLevel = 1\<rparr>
   = Some ''blob:a''"
  (is "_ \<and> playerSrc ?st = _")
proof -
  have h: "\<forall>c \<in> set (clips ?st). (clip_type c = Video \<or> clip_type c = Image)
             \<longrightarrow> \<not> containsTime c (currentTime ?st)"
    by (simp add: containsTime_def fadd_def)
  have "\<forall>i<length (clips ?st).
             clip_type (clips ?st ! i) = Video \<and> (\<forall>j<i. clip_type (clips ?st ! j) \<noteq> Video)
             \<longrightarrow> playerSrc ?st = (if src (clips ?st ! i) = '''' then None
                                else Some (src (clips ?st ! i)))"
    using fallback_first_video [OF h] by blast
  from this [THEN spec, of 1] have "playerSrc ?st = Some ''blob:a''"
    by simp
  then show ?thesis by (simp add: containsTime_def fadd_def)
qed

lemma filter_positions:
  "filter keep ys = map (nth ys) (filter (\<lambda>k. keep (ys ! k)) [0..<length ys])"
proof -
  have "filter keep ys = filter keep (map (nth ys) [0..<length ys])"
    by (simp add: map_nth)
  also have "\<dots> = map (nth ys) (filter (\<lambda>k. keep (ys ! k)) [0..<length ys])"
    by (simp add: filter_map comp_def)
  finally show ?thesis .
qed

text \<open>
  C4. For every clip collection and time value, the active captions are the labels of the
  text clips whose half-open interval contains the time, one label for each such position
  of the collection, in increasing position, so in insertion order and with no
  de-duplication. With a video clip \<open>[0,10)\<close> and a text clip \<open>[3,5)\<close> the video clip is
  active at times 4 and 6, with exactly the text clip's label as captions at time 4 and no
  caption at time 6.
\<close>

theorem active_captions_exact:
  "(\<exists>is. sorted_wrt (<) is
        \<and> set is = {i. i < length (clips st) \<and> clip_type (clips st ! i) = Text
                        \<and> containsTime (clips st ! i) (currentTime st)}
        \<and> activeCaptions st = map (\<lambda>i. name (clips st ! i)) is)
   \<and> activeClip (st\<lparr>clips := [v\<lparr>clip_type := Video, startTime := 0, duration := 10\<rparr>,
                              x\<lparr>clip_type := Text, startTime := 3, duration := 2\<rparr>],
                    currentTime := 4\<rparr>)
       = Some (v\<lparr>clip_type := Video, startTime := 0, duration := 10\<rparr>)
   \<and> activeCaptions (st\<lparr>clips := [v\<lparr>clip_type := Video, startTime := 0, duration := 10\<rparr>,
                              x\<lparr>clip_type := Text, startTime := 3, duration := 2\<rparr>],
                    currentTime := 4\<rparr>)
       = [name x]
   \<and> activeClip (st\<lparr>clips := [v\<lparr>clip_type := Video, startTime := 0, duration := 10\<rparr>,
                              x\<lparr>clip_type := Text, startTime := 3, duration := 2\<rparr>],
                    currentTime := 6\<rparr>)
       = Some (v\<lparr>clip_type := Video, startTime := 0, duration := 10\<rparr>)
   \<and> activeCaptions (st\<lparr>clips := [v\<lparr>clip_type := Video, startTime := 0, duration := 10\<rparr>,
                              x\<lparr>clip_type := Text, startTime := 3, duration := 2\<rparr>],
                    currentTime := 6\<rparr>)
       = []"
proof -
  let ?P = "\<lambda>c. clip_type c = Text \<and> containsTime c (currentTime st)"
  let ?is = "filter (\<lambda>i. ?P (clips st ! i)) [0..<length (clips st)]"
  have s: "sorted_wrt (<) ?is"
    by (rule sorted_wrt_filter) simp
  have m: "set ?is = {i. i < length (clips st) \<and> clip_type (clips st ! i) = Text
                        \<and> containsTime (clips st ! i) (currentTime st)}"
    by auto
  have "activeCaptions st = map name (filter ?P (clips st))"
    by (simp add: activeCaptions_def containsTime_def)
  also have "\<dots> = map name (map (nth (clips st)) ?is)"
    by (subst filter_positions) (rule refl)
  finally have e: "activeCaptions st = map (\<lambda>i. name (clips st ! i)) ?is"
    by (simp add: comp_def)
  from s m e have a: "\<exists>is. sorted_wrt (<) is
        \<and> set is = {i. i < length (clips st) \<and> clip_type (clips st ! i) = Text
                        \<and> containsTime (clips st ! i) (currentTime st)}
        \<and> activeCaptions st = map (\<lambda>i. name (clips st ! i)) is"
    by blast
  show ?thesis
    by (rule conjI [OF a]) (simp add: activeClip_def activeCaptions_def fadd_def)
qed

text \<open>
  C8. The projection depends on the clip collection and the time only: two editor states
  with the same clips and the same playhead give the same active clip, player source and
  captions; the projection leaves the editor state as it was, and projecting again after a
  projection gives the same result.
\<close>

theorem projection_pure:
  "(clips s1 = clips s2 \<and> currentTime s1 = currentTime s2 \<longrightarrow> fst (project s1) = fst (project s2))
   \<and> snd (project s1) = s1
   \<and> fst (project (snd (project s1))) = fst (project s1)"
proof -
  have a: "fst (project s1) = fst (project s2)"
    if "clips s1 = clips s2" "currentTime s1 = currentTime s2"
    unfolding project_def activeClip_def playerSrc_def activeCaptions_def that by simp
  have b: "snd (project s1) = s1"
    by (simp add: project_def)
  from a b show ?thesis by simp
qed

theorem projection_pure_witness:
  "fst (project
     \<lparr>currentTime = 4, st_duration = 10, isPlaying = False, selectedClipId = None,
      clips = [\<lparr>clip_id = ''1'', clip_type = Video, src = ''blob:a'', name = ''Video Clip'',
                duration = 10, startTime = 0, offset = 0\<rparr>,
               \<lparr>clip_id = ''c'', clip_type = Text, src = '''', name = ''hello'',
                duration = 2, startTime = 3, offset = 0\<rparr>],
      zoomLevel = 1\<rparr>)
   = fst (project
     \<lparr>currentTime = 4, st_duration = 30, isPlaying = True, selectedClipId = Some ''1'',
      clips = [\<lparr>clip_id = ''1'', clip_type = Video, src = ''blob:a'', name = ''Video Clip'',
                duration = 10, startTime = 0, offset = 0\<rparr>,
               \<lparr>clip_id = ''c'', clip_type = Text, src = '''', name = ''hello'',
                duration = 2, startTime = 3, offset = 0\<rparr>],
      zoomLevel = 2\<rparr>)
   \<and> fst (project
     \<lparr>currentTime = 4, st_duration = 10, isPlaying = False, selectedClipId = None,
      clips = [\<lparr>clip_id = ''1'', clip_type = Video, src = ''blob:a'', name = ''Video Clip'',
                duration = 10, startTime = 0, offset = 0\<rparr>,
               \<lparr>clip_id = ''c'', clip_type = Text, src = '''', name = ''hello'',
                duration = 2, startTime = 3, offset = 0\<rparr>],
      zoomLevel = 1\<rparr>)
   = (Some \<lparr>clip_id = ''1'', clip_type = Video, src = ''blob:a'', name = ''Video Clip'',
                duration = 10, startTime = 0, offset = 0\<rparr>, Some ''blob:a'', [''hello''])"
  (is "fst (project ?s1) = fst (project ?s2) \<and> _")
proof -
  have "fst (project ?s1) = fst (project ?s2)"
    using projection_pure [of ?s1 ?s2] by simp
  then show ?thesis
    by (simp add: project_def activeClip_def playerSrc_def activeCaptions_def fadd_def)
qed

section \<open>Insertion and deletion\<close>



text \<open>The ids the handlers build are not empty, and the handlers keep the invariant.\<close>

lemma toString_not_empty: "toString n \<noteq> ''''"
  by (subst toString.simps) simp

lemma storeInvariant_handlers:
  "storeInvariant initialState"
  "storeInvariant st \<Longrightarrow> storeInvariant (handleFileUpload now fileType url fileName st)"
  "storeInvariant st \<Longrightarrow> storeInvariant (addToTimeline now source ty st)"
  "storeInvariant st \<Longrightarrow> i \<in> clip_id ` set (clips st) \<Longrightarrow> storeInvariant (onSelectClip i st)"
  "storeInvariant st \<Longrightarrow> storeInvariant (snd (handleAutoCaptions clock generated st))"
proof -
  show "storeInvariant initialState"
    by (simp add: storeInvariant_def initialState_def)
  show "storeInvariant (handleFileUpload now fileType url fileName st)" if "storeInvariant st"
    using that by (simp add: storeInvariant_def handleFileUpload_def toString_not_empty)
  show "storeInvariant (addToTimeline now source ty st)" if "storeInvariant st"
    using that
    by (auto simp: storeInvariant_def addToTimeline_def toString_not_empty split: option.splits)
  show "storeInvariant (onSelectClip i st)"
    if "storeInvariant st" "i \<in> clip_id ` set (clips st)"
    using that by (simp add: storeInvariant_def onSelectClip_def)
  show "storeInvariant (snd (handleAutoCaptions clock generated st))" if "storeInvariant st"
  proof -
    have ids: "clip_id c \<noteq> ''''" if "c \<in> set (newClips clock sel cs)" for c sel cs
    proof -
      from that obtain cap k where "captionToClip clock sel cap k = Some c"
        using newClips_origin by blast
      from captionToClip_Some [OF this] show ?thesis by simp
    qed
    have "storeInvariant (st\<lparr>clips := clips st @ newClips clock sel cs\<rparr>)" for sel cs
      using \<open>storeInvariant st\<close> ids [of _ sel cs]
      by (auto simp: storeInvariant_def split: option.splits)
    with \<open>storeInvariant st\<close> show ?thesis
      by (auto simp: handleAutoCaptions_def Let_def split: option.splits sum.splits)
  qed
qed

text \<open>
  C6. \<open>handleDelete\<close> takes no id: the given id is the selected one. For every editor
  state that satisfies the invariant of the handlers (ids are not empty, the selection is
  none or the id of a stored clip): the clips whose id is the selected one are removed and
  the other clips stay in their order; if no clip matches, the state is unchanged, and
  nothing fails; if a clip matches, the selection is cleared; if exactly one clip matches,
  the state after is the state before without that clip and without selection. The
  playhead, the total duration, the playing flag and the zoom level are unchanged, and the
  invariant holds again.
\<close>

theorem delete_selected:
  assumes "storeInvariant st"
  shows "clips (handleDelete st)
           = filter (\<lambda>c. Some (clip_id c) \<noteq> selectedClipId st) (clips st)
       \<and> ((\<forall>c \<in> set (clips st). Some (clip_id c) \<noteq> selectedClipId st)
            \<longrightarrow> handleDelete st = st)
       \<and> ((\<exists>c \<in> set (clips st). Some (clip_id c) = selectedClipId st)
            \<longrightarrow> selectedClipId (handleDelete st) = None)
       \<and> (\<forall>xs c ys. clips st = xs @ c # ys \<and> Some (clip_id c) = selectedClipId st
                     \<and> (\<forall>d \<in> set (xs @ ys). clip_id d \<noteq> clip_id c)
              \<longrightarrow> handleDelete st = st\<lparr>clips := xs @ ys, selectedClipId := None\<rparr>)
       \<and> currentTime (handleDelete st) = currentTime st
       \<and> st_duration (handleDelete st) = st_duration st
       \<and> isPlaying (handleDelete st) = isPlaying st
       \<and> zoomLevel (handleDelete st) = zoomLevel st
       \<and> storeInvariant (handleDelete st)"
proof (cases "selectedClipId st")
  case None
  then have "handleDelete st = st" by (simp add: handleDelete_def)
  with None assms show ?thesis by simp
next
  case (Some i)
  with assms have mem: "i \<in> clip_id ` set (clips st)"
    and ne: "\<forall>c \<in> set (clips st). clip_id c \<noteq> ''''"
    by (simp_all add: storeInvariant_def)
  then have "i \<noteq> ''''" by auto
  with Some have h: "handleDelete st
      = st\<lparr>clips := filter (\<lambda>c. Some (clip_id c) \<noteq> selectedClipId st) (clips st),
            selectedClipId := None\<rparr>"
    by (simp add: handleDelete_def)
  have a: "clips (handleDelete st)
           = filter (\<lambda>c. Some (clip_id c) \<noteq> selectedClipId st) (clips st)"
    by (simp add: h)
  from mem Some have b: "\<not> (\<forall>c \<in> set (clips st). Some (clip_id c) \<noteq> selectedClipId st)"
    by auto
  have c: "selectedClipId (handleDelete st) = None"
    by (simp add: h)
  have d: "handleDelete st = st\<lparr>clips := xs @ ys, selectedClipId := None\<rparr>"
    if "clips st = xs @ c # ys" "Some (clip_id c) = selectedClipId st"
       "\<forall>d \<in> set (xs @ ys). clip_id d \<noteq> clip_id c" for xs c ys
  proof -
    from that(2) Some have i: "clip_id c = i" by simp
    from that(3) i have "filter (\<lambda>c. clip_id c \<noteq> i) xs = xs" "filter (\<lambda>c. clip_id c \<noteq> i) ys = ys"
      by (simp_all add: filter_id_conv)
    with that(1) i Some
    have "filter (\<lambda>c. Some (clip_id c) \<noteq> selectedClipId st) (clips st) = xs @ ys"
      by simp
    with h show ?thesis by simp
  qed
  have e: "currentTime (handleDelete st) = currentTime st
       \<and> st_duration (handleDelete st) = st_duration st
       \<and> isPlaying (handleDelete st) = isPlaying st
       \<and> zoomLevel (handleDelete st) = zoomLevel st"
    by (simp add: h)
  from ne have f: "storeInvariant (handleDelete st)"
    by (simp add: h storeInvariant_def)
  from a b c d e f show ?thesis by blast
qed

theorem delete_selected_witness:
  "storeInvariant
     \<lparr>currentTime = 0, st_duration = 10, isPlaying = False, selectedClipId = Some ''2'',
      clips = [\<lparr>clip_id = ''1'', clip_type = Video, src = ''blob:a'', name = ''Video Clip'',
                duration = 10, startTime = 0, offset = 0\<rparr>,
               \<lparr>clip_id = ''2'', clip_type = Image, src = ''data:i'', name = ''Generated Image'',
                duration = 5, startTime = 0, offset = 0\<rparr>],
      zoomLevel = 1\<rparr>
   \<and> handleDelete
     \<lparr>currentTime = 0, st_duration = 10, isPlaying = False, selectedClipId = Some ''2'',
      clips = [\<lparr>clip_id = ''1'', clip_type = Video, src = ''blob:a'', name = ''Video Clip'',
                duration = 10, startTime = 0, offset = 0\<rparr>,
               \<lparr>clip_id = ''2'', clip_type = Image, src = ''data:i'', name = ''Generated Image'',
                duration = 5, startTime = 0, offset = 0\<rparr>],
      zoomLevel = 1\<rparr>
   = \<lparr>currentTime = 0, st_duration = 10, isPlaying = False, selectedClipId = None,
      clips = [\<lparr>clip_id = ''1'', clip_type = Video, src = ''blob:a'', name = ''Video Clip'',
                duration = 10, startTime = 0, offset = 0\<rparr>],
      zoomLevel = 1\<rparr>"
  (is "storeInvariant ?st \<and> handleDelete ?st = _")
proof -
  have h: "storeInvariant ?st"
    by (simp add: storeInvariant_def)
  have "\<forall>xs c ys. clips ?st = xs @ c # ys \<and> Some (clip_id c) = selectedClipId ?st
                     \<and> (\<forall>d \<in> set (xs @ ys). clip_id d \<noteq> clip_id c)
              \<longrightarrow> handleDelete ?st = ?st\<lparr>clips := xs @ ys, selectedClipId := None\<rparr>"
    using delete_selected [OF h] by blast
  from this [THEN spec, of "[hd (clips ?st)]", THEN spec, of "last (clips ?st)", THEN spec, of "[]"]
  have "handleDelete ?st = ?st\<lparr>clips := [hd (clips ?st)], selectedClipId := None\<rparr>"
    by simp
  with h show ?thesis by simp
qed

end
